theory Spec2Isabelle
  imports Main "HOL-Library.Sublist"
begin

section \<open>Data model\<close>

text \<open>
  Modelled from the spec: the module \<^verbatim>\<open>state.py\<close> that declares \<^verbatim>\<open>PullRequestComment\<close> and
  \<^verbatim>\<open>ReviewState\<close> is imported by both source files but is not among them. The two records
  below follow section 3 of the specification field by field: a comment has a file path,
  a line number, a body and one of four severities; the state record has the repository
  name, the pull-request number, an optional diff, the proposed comments, the approval
  flag and the message log of (role, text) pairs.
\<close>

datatype severity = Critical | Major | Minor | Nitpick

record PullRequestComment =
  file_path :: string
  line_number :: int
  body :: string
  severity :: severity

record ReviewState =
  repo_name :: string
  pr_number :: int
  pr_diff :: "string option"
  proposed_comments :: "PullRequestComment list"
  review_approved :: bool
  messages :: "(string \<times> string) list"

text \<open>
  Modelled from the spec: the defaults of \<^verbatim>\<open>ReviewState\<close> (declared in the absent
  \<^verbatim>\<open>state.py\<close>). A run is created with the repository name and pull-request number set
  and everything else at its default: no diff, no comments, not approved, no messages.
\<close>

definition initial_state :: "string \<Rightarrow> int \<Rightarrow> ReviewState" where
  "initial_state repo pr =
     \<lparr>repo_name = repo, pr_number = pr, pr_diff = None, proposed_comments = [],
      review_approved = False, messages = []\<rparr>"

subsection \<open>Python values that cross an interface\<close>

text \<open>
  \<^verbatim>\<open>c.model_dump()\<close> turns a comment into a plain mapping from field names to field
  values. The mapping is an association list in the declaration order of the fields.
\<close>

datatype plain = PStr string | PInt int | PSeverity severity

type_synonym payload = "(string \<times> plain) list"

definition model_dump :: "PullRequestComment \<Rightarrow> payload" where
  "model_dump c =
     [(''file_path'', PStr (file_path c)),
      (''line_number'', PInt (line_number c)),
      (''body'', PStr (body c)),
      (''severity'', PSeverity (severity c))]"

text \<open>
  A node returns a Python dict from state keys to new values: an association list from
  key names to values of the kinds the fields of the state record hold.
\<close>

datatype field_value =
    VStr string
  | VInt int
  | VBool bool
  | VComments "PullRequestComment list"
  | VMessages "(string \<times> string) list"

type_synonym update = "(string \<times> field_value) list"

definition keys :: "update \<Rightarrow> string list" where
  "keys u = map fst u"

subsection \<open>Collaborators, their failures and the calls made to them\<close>

text \<open>
  The tools \<^verbatim>\<open>fetch_pr_diff\<close> and \<^verbatim>\<open>post_pr_review\<close> (module \<^verbatim>\<open>tools.py\<close>) and the
  language model behind \<^verbatim>\<open>llm.with_structured_output(ReviewResponse)\<close> are external.
  They are parameters of the model. A collaborator either returns or raises; a raised
  exception is the \<open>Inl\<close> branch of its result. The structured output of the language
  model is the \<^verbatim>\<open>comments\<close> field of the response, which the model may leave out.
\<close>

datatype exn = Exn string

record collaborators =
  fetch_pr_diff :: "string \<Rightarrow> int \<Rightarrow> exn + string"
  llm :: "(string \<times> string) list \<Rightarrow> exn + PullRequestComment list option"
  post_pr_review :: "string \<Rightarrow> int \<Rightarrow> payload list \<Rightarrow> exn + string"

text \<open>Every invocation of a collaborator is recorded, in order, with its arguments.\<close>

datatype call =
    FetchCall string int
  | AnalyzeCall "(string \<times> string) list"
  | PostCall string int "payload list"

type_synonym node_result = "call list \<times> (exn + update)"

section \<open>The review generator (agent.py)\<close>

text \<open>
  \<^verbatim>\<open>ReviewResponse\<close> wraps the list of comments; its field has \<^verbatim>\<open>default_factory=list\<close>,
  so a response without the field holds the empty list.
\<close>

record ReviewResponse =
  comments :: "PullRequestComment list"

definition ReviewResponse_of :: "PullRequestComment list option \<Rightarrow> ReviewResponse" where
  "ReviewResponse_of raw = \<lparr>comments = (case raw of None \<Rightarrow> [] | Some cs \<Rightarrow> cs)\<rparr>"

definition nl :: string where
  "nl = [CHR 0x0A]"

definition system_prompt :: string where
  "system_prompt =
     ''You are a strict Senior Code Reviewer.'' @ nl @
     ''    Analyze the git diff provided below for:'' @ nl @
     ''    1. Security Vulnerabilities (SQLi, XSS, Secrets) - Severity: Critical'' @ nl @
     ''    2. Logic Bugs & Race Conditions - Severity: Major'' @ nl @
     ''    3. Performance Bottlenecks - Severity: Major'' @ nl @
     ''    4. Code Style & Best Practices (PEP8, DRY) - Severity: Minor/Nitpick'' @ nl @
     nl @
     ''    Output a structured list of comments. Only comment on changed lines.'' @ nl @
     ''    If the code looks good, return an empty list.'' @ nl @
     ''    ''"

text \<open>
  The prompt template with its two placeholders filled in: a system message and a user
  message \<^verbatim>\<open>"Repository: {repo}\nDiff:\n{diff}"\<close>.
\<close>

definition prompt :: "string \<Rightarrow> string \<Rightarrow> (string \<times> string) list" where
  "prompt repo diff =
     [(''system'', system_prompt),
      (''user'', ''Repository: '' @ repo @ nl @ ''Diff:'' @ nl @ diff)]"

text \<open>
  \<^verbatim>\<open>reviewer_node\<close>. The test \<^verbatim>\<open>if not current_diff\<close> is Python truthiness: it holds for
  \<^verbatim>\<open>None\<close> and for the empty string. An exception of the fetch tool leaves the function
  before the analysis; an exception of the analysis leaves it before the return.
\<close>

definition reviewer_node :: "collaborators \<Rightarrow> ReviewState \<Rightarrow> node_result" where
  "reviewer_node env state =
     (let (fetched, current_diff) =
        (case pr_diff state of
           None \<Rightarrow>
             ([FetchCall (repo_name state) (pr_number state)],
              fetch_pr_diff env (repo_name state) (pr_number state))
         | Some d \<Rightarrow>
             if d = [] then
               ([FetchCall (repo_name state) (pr_number state)],
                fetch_pr_diff env (repo_name state) (pr_number state))
             else ([], Inr d))
      in case current_diff of
           Inl e \<Rightarrow> (fetched, Inl e)
         | Inr diff \<Rightarrow>
             (case llm env (prompt (repo_name state) diff) of
                Inl e \<Rightarrow> (fetched @ [AnalyzeCall (prompt (repo_name state) diff)], Inl e)
              | Inr raw \<Rightarrow>
                  (fetched @ [AnalyzeCall (prompt (repo_name state) diff)],
                   Inr [(''pr_diff'', VStr diff),
                        (''proposed_comments'', VComments (comments (ReviewResponse_of raw)))])))"

section \<open>The poster (graph.py)\<close>

text \<open>
  The three status texts start with a symbol outside ASCII; strings are byte lists, so
  each symbol is written as its UTF-8 bytes: the cross mark U+274C, the check mark
  U+2705 and the rocket U+1F680.
\<close>

definition cross_mark :: string where
  "cross_mark = [CHR 0xE2, CHR 0x9D, CHR 0x8C]"

definition check_mark :: string where
  "check_mark = [CHR 0xE2, CHR 0x9C, CHR 0x85]"

definition rocket :: string where
  "rocket = [CHR 0xF0, CHR 0x9F, CHR 0x9A, CHR 0x80]"

definition poster_node :: "collaborators \<Rightarrow> ReviewState \<Rightarrow> node_result" where
  "poster_node env state =
     (if \<not> review_approved state then
        ([], Inr [(''messages'',
                   VMessages [(''ai'', cross_mark @ '' Review NOT approved by human. No comments posted.'')])])
      else if proposed_comments state = [] then
        ([], Inr [(''messages'',
                   VMessages [(''ai'', check_mark @ '' No issues found. Skipping comment posting.'')])])
      else
        (let comments_payload = map model_dump (proposed_comments state)
         in case post_pr_review env (repo_name state) (pr_number state) comments_payload of
              Inl e \<Rightarrow>
                ([PostCall (repo_name state) (pr_number state) comments_payload], Inl e)
            | Inr result \<Rightarrow>
                ([PostCall (repo_name state) (pr_number state) comments_payload],
                 Inr [(''messages'', VMessages [(''ai'', rocket @ '' '' @ result)])])))"

text \<open>The calls only the review generator makes: the fetch and the analysis.\<close>

definition is_review_call :: "call \<Rightarrow> bool" where
  "is_review_call c =
     (case c of FetchCall repo pr \<Rightarrow> True | AnalyzeCall msgs \<Rightarrow> True | PostCall repo pr cs \<Rightarrow> False)"

section \<open>The workflow graph (graph.py)\<close>

subsection \<open>Graph construction\<close>

text \<open>
  The builder collects named nodes and directed edges; \<^verbatim>\<open>START\<close> and \<^verbatim>\<open>END\<close> are the
  engine's two reserved node names. Compiling attaches the list of nodes before which
  the engine suspends. The checkpointer passed to \<^verbatim>\<open>compile\<close> stores the run record
  between suspension and resumption; in the model the run record itself is what is stored.
\<close>

definition START :: string where
  "START = ''__start__''"

definition END :: string where
  "END = ''__end__''"

type_synonym node_fn = "ReviewState \<Rightarrow> node_result"

record StateGraph =
  nodes :: "(string \<times> node_fn) list"
  edges :: "(string \<times> string) list"

record CompiledGraph = StateGraph +
  interrupt_before :: "string list"

definition StateGraph_new :: StateGraph where
  "StateGraph_new = \<lparr>nodes = [], edges = []\<rparr>"

definition add_node :: "string \<Rightarrow> node_fn \<Rightarrow> StateGraph \<Rightarrow> StateGraph" where
  "add_node name f b = b\<lparr>nodes := nodes b @ [(name, f)]\<rparr>"

definition add_edge :: "string \<Rightarrow> string \<Rightarrow> StateGraph \<Rightarrow> StateGraph" where
  "add_edge a b g = g\<lparr>edges := edges g @ [(a, b)]\<rparr>"

definition compile :: "StateGraph \<Rightarrow> string list \<Rightarrow> CompiledGraph" where
  "compile b before = \<lparr>nodes = nodes b, edges = edges b, interrupt_before = before\<rparr>"

definition builder :: "collaborators \<Rightarrow> StateGraph" where
  "builder env =
     (let b = StateGraph_new;
          b = add_node ''reviewer'' (reviewer_node env) b;
          b = add_node ''poster'' (poster_node env) b;
          b = add_edge START ''reviewer'' b;
          b = add_edge ''reviewer'' ''poster'' b;
          b = add_edge ''poster'' END b
      in b)"

definition graph :: "collaborators \<Rightarrow> CompiledGraph" where
  "graph env = compile (builder env) [''poster'']"

subsection \<open>The engine\<close>

text \<open>
  Modelled from the spec: the workflow engine is a third-party library and none of its
  code is in the repository. Sections 3, 4.2 and 4.4 of the specification say what it
  does: a step's update is merged into the state record (\<^verbatim>\<open>messages\<close> is an append-only
  log, every other field is replaced); after a step the engine follows the step's
  outgoing edge; before a node listed in \<^verbatim>\<open>interrupt_before\<close> it persists the state and
  suspends, always; a suspended run continues only when it is resumed from outside, and
  then at the node it was suspended before, without running earlier steps again; the
  external actor may set \<^verbatim>\<open>review_approved\<close> while the run is suspended; an exception of a
  step ends the run. The engine below interprets any graph whose nodes have at most one
  outgoing edge, which is the case of the graph built above.
\<close>

definition apply_field :: "string \<times> field_value \<Rightarrow> ReviewState \<Rightarrow> ReviewState" where
  "apply_field kv s =
     (let k = fst kv; v = snd kv in
      if k = ''repo_name'' then (case v of VStr x \<Rightarrow> s\<lparr>repo_name := x\<rparr> | _ \<Rightarrow> s)
      else if k = ''pr_number'' then (case v of VInt n \<Rightarrow> s\<lparr>pr_number := n\<rparr> | _ \<Rightarrow> s)
      else if k = ''pr_diff'' then (case v of VStr d \<Rightarrow> s\<lparr>pr_diff := Some d\<rparr> | _ \<Rightarrow> s)
      else if k = ''proposed_comments'' then
        (case v of VComments cs \<Rightarrow> s\<lparr>proposed_comments := cs\<rparr> | _ \<Rightarrow> s)
      else if k = ''review_approved'' then
        (case v of VBool b \<Rightarrow> s\<lparr>review_approved := b\<rparr> | _ \<Rightarrow> s)
      else if k = ''messages'' then
        (case v of VMessages ms \<Rightarrow> s\<lparr>messages := messages s @ ms\<rparr> | _ \<Rightarrow> s)
      else s)"

definition apply_update :: "update \<Rightarrow> ReviewState \<Rightarrow> ReviewState" where
  "apply_update u s = fold apply_field u s"

text \<open>
  Where a run stands: about to execute a node, suspended before a node, finished, or
  ended by an exception.
\<close>

datatype position = At string | Interrupted string | Finished | Crashed exn

text \<open>
  The run record: the position, the state record, and three logs kept for the
  statements below: the collaborator calls made so far, the names of the nodes whose
  functions were invoked, and every position the run has been in.
\<close>

record run =
  pos :: position
  state_values :: ReviewState
  calls :: "call list"
  executed :: "string list"
  history :: "position list"

definition start :: "string \<Rightarrow> int \<Rightarrow> run" where
  "start repo pr =
     \<lparr>pos = At START, state_values = initial_state repo pr, calls = [], executed = [],
      history = [At START]\<rparr>"

definition enter :: "CompiledGraph \<Rightarrow> string option \<Rightarrow> position" where
  "enter g target =
     (case target of
        None \<Rightarrow> Finished
      | Some m \<Rightarrow>
          if m = END then Finished
          else if m \<in> set (interrupt_before g) then Interrupted m
          else At m)"

definition move :: "position \<Rightarrow> run \<Rightarrow> run" where
  "move p r = r\<lparr>pos := p, history := history r @ [p]\<rparr>"

text \<open>
  One step of the engine on its own. \<^verbatim>\<open>START\<close> has no function: the engine only follows
  its edge. A suspended, finished or crashed run has no step of its own.
\<close>

definition tick :: "CompiledGraph \<Rightarrow> run \<Rightarrow> run option" where
  "tick g r =
     (case pos r of
        At n \<Rightarrow>
          (case map_of (nodes g) n of
             None \<Rightarrow> Some (move (enter g (map_of (edges g) n)) r)
           | Some f \<Rightarrow>
               (case f (state_values r) of
                  (cs, Inl e) \<Rightarrow>
                    Some (move (Crashed e)
                            (r\<lparr>calls := calls r @ cs, executed := executed r @ [n]\<rparr>))
                | (cs, Inr u) \<Rightarrow>
                    Some (move (enter g (map_of (edges g) n))
                            (r\<lparr>state_values := apply_update u (state_values r),
                               calls := calls r @ cs, executed := executed r @ [n]\<rparr>))))
      | Interrupted n \<Rightarrow> None
      | Finished \<Rightarrow> None
      | Crashed e \<Rightarrow> None)"

text \<open>
  The external resume of a suspended run, with the approval decision it may carry.
\<close>

definition resume :: "bool option \<Rightarrow> run \<Rightarrow> run option" where
  "resume approval r =
     (case pos r of
        Interrupted n \<Rightarrow>
          Some (move (At n)
                  (r\<lparr>state_values :=
                       (case approval of
                          None \<Rightarrow> state_values r
                        | Some b \<Rightarrow> (state_values r)\<lparr>review_approved := b\<rparr>)\<rparr>))
      | At n \<Rightarrow> None
      | Finished \<Rightarrow> None
      | Crashed e \<Rightarrow> None)"

text \<open>
  A run is driven by a sequence of events: steps of the engine and external resumes.
  An event that does not apply to the run's position is refused (\<open>None\<close>).
\<close>

datatype event = Tick | Resume "bool option"

definition fire :: "CompiledGraph \<Rightarrow> event \<Rightarrow> run \<Rightarrow> run option" where
  "fire g ev r = (case ev of Tick \<Rightarrow> tick g r | Resume approval \<Rightarrow> resume approval r)"

fun drive :: "CompiledGraph \<Rightarrow> event list \<Rightarrow> run \<Rightarrow> run option" where
  "drive g [] r = Some r"
| "drive g (ev # evs) r = (case fire g ev r of None \<Rightarrow> None | Some r' \<Rightarrow> drive g evs r')"

subsection \<open>The states of the specification's state machine\<close>

datatype phase = Start | Reviewing | AwaitingApproval | Posting | Done | Failed | Elsewhere

definition phase_of :: "position \<Rightarrow> phase" where
  "phase_of p =
     (case p of
        At n \<Rightarrow>
          if n = START then Start
          else if n = ''reviewer'' then Reviewing
          else if n = ''poster'' then Posting
          else Elsewhere
      | Interrupted n \<Rightarrow> if n = ''poster'' then AwaitingApproval else Elsewhere
      | Finished \<Rightarrow> Done
      | Crashed e \<Rightarrow> Failed)"

definition phases :: "run \<Rightarrow> phase list" where
  "phases r = map phase_of (history r)"

definition linear_path :: "phase list" where
  "linear_path = [Start, Reviewing, AwaitingApproval, Posting, Done]"

text \<open>
  The paths a run may have taken so far: a non-empty prefix of the linear path, or the
  path up to a step that raised, followed by the failure.
\<close>

definition on_linear_path :: "phase list \<Rightarrow> bool" where
  "on_linear_path ps =
     (ps \<noteq> [] \<and>
      (prefix ps linear_path \<or>
       ps = [Start, Reviewing, Failed] \<or>
       ps = [Start, Reviewing, AwaitingApproval, Posting, Failed]))"

text \<open>
  The invariant of the runs of \<open>graph env\<close> started by \<open>start repo pr\<close>: position, logs
  and the diff held, stage by stage.
\<close>

definition holds_fetched_diff :: "collaborators \<Rightarrow> string \<Rightarrow> int \<Rightarrow> ReviewState \<Rightarrow> bool" where
  "holds_fetched_diff env repo pr s =
     (case pr_diff s of
        None \<Rightarrow> False
      | Some d \<Rightarrow> fetch_pr_diff env repo pr = Inr d)"

definition run_invariant :: "collaborators \<Rightarrow> string \<Rightarrow> int \<Rightarrow> run \<Rightarrow> bool" where
  "run_invariant env repo pr r =
     (repo_name (state_values r) = repo \<and> pr_number (state_values r) = pr \<and>
      (case pos r of
         At n \<Rightarrow>
           (n = START \<and> history r = [At START] \<and> executed r = [] \<and>
              pr_diff (state_values r) = None) \<or>
           (n = ''reviewer'' \<and> history r = [At START, At ''reviewer''] \<and> executed r = [] \<and>
              pr_diff (state_values r) = None) \<or>
           (n = ''poster'' \<and>
              history r = [At START, At ''reviewer'', Interrupted ''poster'', At ''poster''] \<and>
              executed r = [''reviewer''] \<and> holds_fetched_diff env repo pr (state_values r))
       | Interrupted n \<Rightarrow>
           n = ''poster'' \<and> history r = [At START, At ''reviewer'', Interrupted ''poster''] \<and>
           executed r = [''reviewer''] \<and> holds_fetched_diff env repo pr (state_values r)
       | Finished \<Rightarrow>
           history r =
             [At START, At ''reviewer'', Interrupted ''poster'', At ''poster'', Finished] \<and>
           executed r = [''reviewer'', ''poster''] \<and> holds_fetched_diff env repo pr (state_values r)
       | Crashed e \<Rightarrow>
           (history r = [At START, At ''reviewer'', Crashed e] \<and> executed r = [''reviewer''] \<and>
              pr_diff (state_values r) = None) \<or>
           (history r =
              [At START, At ''reviewer'', Interrupted ''poster'', At ''poster'', Crashed e] \<and>
            executed r = [''reviewer'', ''poster''] \<and> holds_fetched_diff env repo pr (state_values r))))"

section \<open>Example inputs\<close>

text \<open>
  The scenario of the specification: repository \<^verbatim>\<open>acme/widgets\<close>, pull request 42, one
  critical comment about a query built by string concatenation; and collaborators that
  all raise.
\<close>

definition example_comment :: PullRequestComment where
  "example_comment =
     \<lparr>file_path = ''app/db.py'', line_number = 12,
      body = ''SQL query built by string concatenation'', severity = Critical\<rparr>"

definition example_env :: collaborators where
  "example_env =
     \<lparr>fetch_pr_diff = (\<lambda>repo pr. Inr ''+ query = prefix + name''),
      llm = (\<lambda>msgs. Inr (Some [example_comment])),
      post_pr_review = (\<lambda>repo pr cs. Inr ''Review posted'')\<rparr>"

definition failing_env :: collaborators where
  "failing_env =
     \<lparr>fetch_pr_diff = (\<lambda>repo pr. Inl (Exn ''fetch failed'')),
      llm = (\<lambda>msgs. Inl (Exn ''analysis failed'')),
      post_pr_review = (\<lambda>repo pr cs. Inl (Exn ''post failed''))\<rparr>"

definition reviewed_state :: ReviewState where
  "reviewed_state =
     (initial_state ''acme/widgets'' 42)
       \<lparr>pr_diff := Some ''+ query = prefix + name'', proposed_comments := [example_comment]\<rparr>"

definition empty_diff_state :: ReviewState where
  "empty_diff_state = (initial_state ''acme/widgets'' 42)\<lparr>pr_diff := Some ''''\<rparr>"

definition quiet_env :: collaborators where
  "quiet_env =
     \<lparr>fetch_pr_diff = (\<lambda>repo pr. Inr ''''),
      llm = (\<lambda>msgs. Inr None),
      post_pr_review = (\<lambda>repo pr cs. Inr ''Review posted'')\<rparr>"

definition analysis_failing_env :: collaborators where
  "analysis_failing_env =
     \<lparr>fetch_pr_diff = (\<lambda>repo pr. Inr ''+ query = prefix + name''),
      llm = (\<lambda>msgs. Inl (Exn ''analysis failed'')),
      post_pr_review = (\<lambda>repo pr cs. Inr ''Review posted'')\<rparr>"

text \<open>
  The run of the scenario: suspended after the review, and finished after an approving
  resume.
\<close>

definition suspended_example :: run where
  "suspended_example =
     \<lparr>pos = Interrupted ''poster'',
      state_values = reviewed_state,
      calls = [FetchCall ''acme/widgets'' 42,
               AnalyzeCall (prompt ''acme/widgets'' ''+ query = prefix + name'')],
      executed = [''reviewer''],
      history = [At START, At ''reviewer'', Interrupted ''poster'']\<rparr>"

definition finished_example :: run where
  "finished_example =
     \<lparr>pos = Finished,
      state_values =
        reviewed_state\<lparr>review_approved := True,
                        messages := [(''ai'', rocket @ '' Review posted'')]\<rparr>,
      calls = [FetchCall ''acme/widgets'' 42,
               AnalyzeCall (prompt ''acme/widgets'' ''+ query = prefix + name''),
               PostCall ''acme/widgets'' 42 [model_dump example_comment]],
      executed = [''reviewer'', ''poster''],
      history = [At START, At ''reviewer'', Interrupted ''poster'', At ''poster'', Finished]\<rparr>"

section \<open>Properties of the poster\<close>

text \<open>
  C1. Whenever \<open>review_approved\<close> is false, the poster returns an update whose messages
  are the single rejection message and makes no call at all, whatever
  \<open>proposed_comments\<close> holds.
\<close>

theorem poster_node_not_approved:
  assumes "\<not> review_approved state"
  shows "poster_node env state =
           ([], Inr [(''messages'',
                      VMessages [(''ai'', cross_mark @ '' Review NOT approved by human. No comments posted.'')])])"
  using assms by (simp add: poster_node_def)

theorem poster_node_not_approved_witness:
  "\<not> review_approved reviewed_state \<and> proposed_comments reviewed_state \<noteq> [] \<and>
   poster_node example_env reviewed_state =
     ([], Inr [(''messages'',
                VMessages [(''ai'', cross_mark @ '' Review NOT approved by human. No comments posted.'')])])"
  using poster_node_not_approved [of reviewed_state example_env]
  by (simp add: reviewed_state_def initial_state_def)

text \<open>
  C2. Whenever \<open>review_approved\<close> is true and \<open>proposed_comments\<close> is empty, the poster
  returns an update whose messages are the single "no issues" message and makes no call.
\<close>

theorem poster_node_no_comments:
  assumes "review_approved state" and "proposed_comments state = []"
  shows "poster_node env state =
           ([], Inr [(''messages'',
                      VMessages [(''ai'', check_mark @ '' No issues found. Skipping comment posting.'')])])"
  using assms by (simp add: poster_node_def)

theorem poster_node_no_comments_witness:
  "review_approved ((initial_state ''acme/widgets'' 42)\<lparr>review_approved := True\<rparr>) \<and>
   proposed_comments ((initial_state ''acme/widgets'' 42)\<lparr>review_approved := True\<rparr>) = [] \<and>
   poster_node example_env ((initial_state ''acme/widgets'' 42)\<lparr>review_approved := True\<rparr>) =
     ([], Inr [(''messages'',
                VMessages [(''ai'', check_mark @ '' No issues found. Skipping comment posting.'')])])"
  using poster_node_no_comments [of "(initial_state ''acme/widgets'' 42)\<lparr>review_approved := True\<rparr>" example_env]
  by (simp add: initial_state_def)

text \<open>
  C3. Whenever \<open>review_approved\<close> is true and \<open>proposed_comments\<close> is not empty, the poster
  calls the posting collaborator exactly once, with the repository name, the pull-request
  number and the comments dumped one by one in their order; when the collaborator returns
  a result string, the update holds the single message made of the rocket, a space and
  that string.
\<close>

theorem poster_node_posts_once:
  assumes "review_approved state" and "proposed_comments state \<noteq> []"
  shows "fst (poster_node env state) =
           [PostCall (repo_name state) (pr_number state) (map model_dump (proposed_comments state))] \<and>
         (\<forall>result.
            post_pr_review env (repo_name state) (pr_number state)
              (map model_dump (proposed_comments state)) = Inr result \<longrightarrow>
            snd (poster_node env state) =
              Inr [(''messages'', VMessages [(''ai'', rocket @ '' '' @ result)])])"
  using assms by (simp add: poster_node_def Let_def split: sum.splits)

theorem poster_node_posts_once_witness:
  "review_approved (reviewed_state\<lparr>review_approved := True\<rparr>) \<and>
   proposed_comments (reviewed_state\<lparr>review_approved := True\<rparr>) \<noteq> [] \<and>
   post_pr_review example_env ''acme/widgets'' 42 [model_dump example_comment] = Inr ''Review posted'' \<and>
   poster_node example_env (reviewed_state\<lparr>review_approved := True\<rparr>) =
     ([PostCall ''acme/widgets'' 42
         [[(''file_path'', PStr ''app/db.py''), (''line_number'', PInt 12),
           (''body'', PStr ''SQL query built by string concatenation''),
           (''severity'', PSeverity Critical)]]],
      Inr [(''messages'', VMessages [(''ai'', rocket @ '' Review posted'')])])"
  using poster_node_posts_once [of "reviewed_state\<lparr>review_approved := True\<rparr>" example_env]
  by (simp add: reviewed_state_def initial_state_def example_env_def example_comment_def
        model_dump_def prod_eq_iff)

section \<open>Properties of the review generator\<close>

text \<open>
  The two cases of \<^verbatim>\<open>reviewer_node\<close>, by the truthiness of the diff it is given.
\<close>

lemma reviewer_node_truthy:
  assumes "pr_diff state = Some d" and "d \<noteq> []"
  shows "reviewer_node env state =
           ([AnalyzeCall (prompt (repo_name state) d)],
            case llm env (prompt (repo_name state) d) of
              Inl e \<Rightarrow> Inl e
            | Inr raw \<Rightarrow>
                Inr [(''pr_diff'', VStr d),
                     (''proposed_comments'', VComments (case raw of None \<Rightarrow> [] | Some cs \<Rightarrow> cs))])"
  using assms by (simp add: reviewer_node_def ReviewResponse_of_def split: sum.splits)

lemma reviewer_node_falsy:
  assumes "pr_diff state = None \<or> pr_diff state = Some []"
  shows "reviewer_node env state =
           (case fetch_pr_diff env (repo_name state) (pr_number state) of
              Inl e \<Rightarrow> ([FetchCall (repo_name state) (pr_number state)], Inl e)
            | Inr d \<Rightarrow>
                ([FetchCall (repo_name state) (pr_number state),
                  AnalyzeCall (prompt (repo_name state) d)],
                 case llm env (prompt (repo_name state) d) of
                   Inl e \<Rightarrow> Inl e
                 | Inr raw \<Rightarrow>
                     Inr [(''pr_diff'', VStr d),
                          (''proposed_comments'', VComments (case raw of None \<Rightarrow> [] | Some cs \<Rightarrow> cs))]))"
  using assms by (auto simp add: reviewer_node_def ReviewResponse_of_def split: sum.splits)

text \<open>
  A state may hold a diff that is present and empty. There the fetch tool is invoked
  although \<open>pr_diff\<close> is not absent, so "the fetch happens exactly when \<open>pr_diff\<close> is
  absent" does not hold of the code.
\<close>

theorem reviewer_node_fetch_on_present_empty_diff:
  "\<not> ((FetchCall ''acme/widgets'' 42 \<in> set (fst (reviewer_node example_env empty_diff_state))) =
       (pr_diff empty_diff_state = None))"
  by (simp add: reviewer_node_falsy empty_diff_state_def initial_state_def example_env_def)

text \<open>
  C4, as amended. For every state record the review generator invokes the fetch tool
  exactly when \<open>pr_diff\<close> is absent or the empty string, and not at all when it is a
  non-empty string. With a non-empty diff in the state, the only call is the analysis of
  that diff; with an absent or empty one and a fetch that returns \<open>d\<close>, the calls are the
  fetch and then the analysis of \<open>d\<close>. Whenever the analysis returns, the update holds
  exactly the keys \<open>pr_diff\<close> and \<open>proposed_comments\<close>: the diff that was analysed and
  the comments found, which are the empty list when the response carries none, also for
  an empty diff.
\<close>

theorem reviewer_node_contract:
  "((FetchCall (repo_name state) (pr_number state) \<in> set (fst (reviewer_node env state))) =
      (pr_diff state = None \<or> pr_diff state = Some [])) \<and>
   (\<forall>d. pr_diff state = Some d \<and> d \<noteq> [] \<longrightarrow>
      fst (reviewer_node env state) = [AnalyzeCall (prompt (repo_name state) d)] \<and>
      (\<forall>raw. llm env (prompt (repo_name state) d) = Inr raw \<longrightarrow>
         snd (reviewer_node env state) =
           Inr [(''pr_diff'', VStr d),
                (''proposed_comments'', VComments (case raw of None \<Rightarrow> [] | Some cs \<Rightarrow> cs))])) \<and>
   (\<forall>d. (pr_diff state = None \<or> pr_diff state = Some []) \<and>
        fetch_pr_diff env (repo_name state) (pr_number state) = Inr d \<longrightarrow>
      fst (reviewer_node env state) =
        [FetchCall (repo_name state) (pr_number state), AnalyzeCall (prompt (repo_name state) d)] \<and>
      (\<forall>raw. llm env (prompt (repo_name state) d) = Inr raw \<longrightarrow>
         snd (reviewer_node env state) =
           Inr [(''pr_diff'', VStr d),
                (''proposed_comments'', VComments (case raw of None \<Rightarrow> [] | Some cs \<Rightarrow> cs))])) \<and>
   (\<forall>u. snd (reviewer_node env state) = Inr u \<longrightarrow> keys u = [''pr_diff'', ''proposed_comments''])"
proof (cases "pr_diff state = None \<or> pr_diff state = Some []")
  case True
  show ?thesis
    using True
    by (cases "fetch_pr_diff env (repo_name state) (pr_number state)")
       (auto simp add: reviewer_node_falsy keys_def split: sum.splits)
next
  case False
  then obtain d where d: "pr_diff state = Some d" "d \<noteq> []"
    by (cases "pr_diff state") auto
  show ?thesis
    using d by (auto simp add: reviewer_node_truthy keys_def split: sum.splits)
qed

theorem reviewer_node_contract_witness:
  "pr_diff reviewed_state = Some ''+ query = prefix + name'' \<and>
   reviewer_node example_env reviewed_state =
     ([AnalyzeCall (prompt ''acme/widgets'' ''+ query = prefix + name'')],
      Inr [(''pr_diff'', VStr ''+ query = prefix + name''),
           (''proposed_comments'', VComments [example_comment])]) \<and>
   pr_diff (initial_state ''acme/widgets'' 42) = None \<and>
   fetch_pr_diff quiet_env ''acme/widgets'' 42 = Inr '''' \<and>
   llm quiet_env (prompt ''acme/widgets'' '''') = Inr None \<and>
   reviewer_node quiet_env (initial_state ''acme/widgets'' 42) =
     ([FetchCall ''acme/widgets'' 42, AnalyzeCall (prompt ''acme/widgets'' '''')],
      Inr [(''pr_diff'', VStr ''''), (''proposed_comments'', VComments [])]) \<and>
   keys [(''pr_diff'', VStr ''''), (''proposed_comments'', VComments [])] =
     [''pr_diff'', ''proposed_comments'']"
  using reviewer_node_contract [of reviewed_state example_env]
        reviewer_node_contract [of "initial_state ''acme/widgets'' 42" quiet_env]
  by (simp add: reviewed_state_def initial_state_def example_env_def quiet_env_def prod_eq_iff keys_def)

text \<open>
  C10. A state whose \<open>pr_diff\<close> is the empty string is treated like one whose \<open>pr_diff\<close>
  is absent: the review generator does the same in both, and its first call is the fetch.
\<close>

theorem reviewer_node_empty_string_like_absent:
  "reviewer_node env (state\<lparr>pr_diff := Some ''''\<rparr>) = reviewer_node env (state\<lparr>pr_diff := None\<rparr>) \<and>
   take 1 (fst (reviewer_node env (state\<lparr>pr_diff := Some ''''\<rparr>))) =
     [FetchCall (repo_name state) (pr_number state)]"
  by (simp add: reviewer_node_falsy split: sum.splits)

theorem reviewer_node_empty_string_like_absent_witness:
  "reviewer_node example_env ((initial_state ''acme/widgets'' 42)\<lparr>pr_diff := Some ''''\<rparr>) =
     ([FetchCall ''acme/widgets'' 42,
       AnalyzeCall (prompt ''acme/widgets'' ''+ query = prefix + name'')],
      Inr [(''pr_diff'', VStr ''+ query = prefix + name''),
           (''proposed_comments'', VComments [example_comment])])"
  using reviewer_node_empty_string_like_absent [of example_env "initial_state ''acme/widgets'' 42"]
  by (simp add: reviewer_node_falsy initial_state_def example_env_def)

section \<open>Failures of collaborators\<close>

text \<open>
  C9. An exception raised by a collaborator leaves the enclosing step as that same
  exception, after exactly one call to the collaborator that raised: the fetch (no
  analysis follows), the analysis (after a fetch, or on the diff already held), and the
  posting.
\<close>

theorem collaborator_failures_propagate:
  "((pr_diff state = None \<or> pr_diff state = Some []) \<and>
      fetch_pr_diff env (repo_name state) (pr_number state) = Inl e \<longrightarrow>
      reviewer_node env state = ([FetchCall (repo_name state) (pr_number state)], Inl e)) \<and>
   ((pr_diff state = None \<or> pr_diff state = Some []) \<and>
      fetch_pr_diff env (repo_name state) (pr_number state) = Inr d \<and>
      llm env (prompt (repo_name state) d) = Inl e \<longrightarrow>
      reviewer_node env state =
        ([FetchCall (repo_name state) (pr_number state), AnalyzeCall (prompt (repo_name state) d)],
         Inl e)) \<and>
   (pr_diff state = Some d \<and> d \<noteq> [] \<and> llm env (prompt (repo_name state) d) = Inl e \<longrightarrow>
      reviewer_node env state = ([AnalyzeCall (prompt (repo_name state) d)], Inl e)) \<and>
   (review_approved state \<and> proposed_comments state \<noteq> [] \<and>
      post_pr_review env (repo_name state) (pr_number state)
        (map model_dump (proposed_comments state)) = Inl e \<longrightarrow>
      poster_node env state =
        ([PostCall (repo_name state) (pr_number state) (map model_dump (proposed_comments state))],
         Inl e))"
  by (auto simp add: reviewer_node_falsy reviewer_node_truthy poster_node_def Let_def)

theorem collaborator_failures_propagate_witness:
  "pr_diff (initial_state ''acme/widgets'' 42) = None \<and>
   fetch_pr_diff failing_env ''acme/widgets'' 42 = Inl (Exn ''fetch failed'') \<and>
   reviewer_node failing_env (initial_state ''acme/widgets'' 42) =
     ([FetchCall ''acme/widgets'' 42], Inl (Exn ''fetch failed'')) \<and>
   fetch_pr_diff analysis_failing_env ''acme/widgets'' 42 = Inr ''+ query = prefix + name'' \<and>
   reviewer_node analysis_failing_env (initial_state ''acme/widgets'' 42) =
     ([FetchCall ''acme/widgets'' 42,
       AnalyzeCall (prompt ''acme/widgets'' ''+ query = prefix + name'')],
      Inl (Exn ''analysis failed'')) \<and>
   pr_diff reviewed_state = Some ''+ query = prefix + name'' \<and>
   reviewer_node failing_env reviewed_state =
     ([AnalyzeCall (prompt ''acme/widgets'' ''+ query = prefix + name'')],
      Inl (Exn ''analysis failed'')) \<and>
   review_approved (reviewed_state\<lparr>review_approved := True\<rparr>) \<and>
   proposed_comments (reviewed_state\<lparr>review_approved := True\<rparr>) \<noteq> [] \<and>
   poster_node failing_env (reviewed_state\<lparr>review_approved := True\<rparr>) =
     ([PostCall ''acme/widgets'' 42 [model_dump example_comment]], Inl (Exn ''post failed''))"
  using collaborator_failures_propagate
          [of "initial_state ''acme/widgets'' 42" failing_env "Exn ''fetch failed''"]
        collaborator_failures_propagate
          [of "initial_state ''acme/widgets'' 42" analysis_failing_env "Exn ''analysis failed''"
              "''+ query = prefix + name''"]
        collaborator_failures_propagate
          [of reviewed_state failing_env "Exn ''analysis failed''" "''+ query = prefix + name''"]
        collaborator_failures_propagate
          [of "reviewed_state\<lparr>review_approved := True\<rparr>" failing_env "Exn ''post failed''"]
  by (simp add: reviewed_state_def initial_state_def failing_env_def analysis_failing_env_def)

section \<open>Properties of the workflow\<close>

subsection \<open>The steps of the compiled graph\<close>

lemma graph_nodes:
  "nodes (graph env) = [(''reviewer'', reviewer_node env), (''poster'', poster_node env)]"
  by (simp add: graph_def compile_def builder_def StateGraph_new_def add_node_def add_edge_def)

lemma graph_edges:
  "edges (graph env) = [(START, ''reviewer''), (''reviewer'', ''poster''), (''poster'', END)]"
  by (simp add: graph_def compile_def builder_def StateGraph_new_def add_node_def add_edge_def)

lemma graph_interrupt_before: "interrupt_before (graph env) = [''poster'']"
  by (simp add: graph_def compile_def)

lemma tick_start:
  "pos r = At START \<Longrightarrow> tick (graph env) r = Some (move (At ''reviewer'') r)"
  by (simp add: tick_def graph_nodes graph_edges graph_interrupt_before enter_def START_def END_def)

lemma tick_reviewer:
  "pos r = At ''reviewer'' \<Longrightarrow>
   tick (graph env) r =
     (case reviewer_node env (state_values r) of
        (cs, Inl e) \<Rightarrow>
          Some (move (Crashed e) (r\<lparr>calls := calls r @ cs, executed := executed r @ [''reviewer'']\<rparr>))
      | (cs, Inr u) \<Rightarrow>
          Some (move (Interrupted ''poster'')
                  (r\<lparr>state_values := apply_update u (state_values r),
                     calls := calls r @ cs, executed := executed r @ [''reviewer'']\<rparr>)))"
  by (simp add: tick_def graph_nodes graph_edges graph_interrupt_before enter_def START_def END_def
           split: prod.splits sum.splits)

lemma tick_poster:
  "pos r = At ''poster'' \<Longrightarrow>
   tick (graph env) r =
     (case poster_node env (state_values r) of
        (cs, Inl e) \<Rightarrow>
          Some (move (Crashed e) (r\<lparr>calls := calls r @ cs, executed := executed r @ [''poster'']\<rparr>))
      | (cs, Inr u) \<Rightarrow>
          Some (move Finished
                  (r\<lparr>state_values := apply_update u (state_values r),
                     calls := calls r @ cs, executed := executed r @ [''poster'']\<rparr>)))"
  by (simp add: tick_def graph_nodes graph_edges graph_interrupt_before enter_def START_def END_def
           split: prod.splits sum.splits)

lemma poster_node_keys:
  "poster_node env state = (cs, Inr u) \<Longrightarrow> keys u = [''messages'']"
  by (auto simp add: poster_node_def Let_def keys_def split: if_splits sum.splits)

lemma poster_node_update:
  "poster_node env state = (cs, Inr u) \<Longrightarrow> \<exists>ms. u = [(''messages'', VMessages ms)]"
  by (auto simp add: poster_node_def Let_def split: if_splits sum.splits)

lemma reviewer_node_update:
  "reviewer_node env state = (cs, Inr u) \<Longrightarrow>
   \<exists>d found. u = [(''pr_diff'', VStr d), (''proposed_comments'', VComments found)] \<and>
     (if pr_diff state = None \<or> pr_diff state = Some []
      then fetch_pr_diff env (repo_name state) (pr_number state) = Inr d
      else pr_diff state = Some d)"
proof (cases "pr_diff state = None \<or> pr_diff state = Some []")
  case True
  assume "reviewer_node env state = (cs, Inr u)"
  with True show ?thesis
    by (auto simp add: reviewer_node_falsy split: sum.splits)
next
  case False
  assume r: "reviewer_node env state = (cs, Inr u)"
  from False obtain d where d: "pr_diff state = Some d" "d \<noteq> []"
    by (cases "pr_diff state") auto
  with r show ?thesis
    by (auto simp add: reviewer_node_truthy split: sum.splits)
qed

lemma apply_messages [simp]:
  "apply_update [(''messages'', VMessages ms)] s = s\<lparr>messages := messages s @ ms\<rparr>"
  by (simp add: apply_update_def apply_field_def)

lemma apply_review [simp]:
  "apply_update [(''pr_diff'', VStr d), (''proposed_comments'', VComments found)] s =
     s\<lparr>pr_diff := Some d, proposed_comments := found\<rparr>"
  by (simp add: apply_update_def apply_field_def)

lemma drive_append:
  "drive g (evs @ evs') r = (case drive g evs r of None \<Rightarrow> None | Some r' \<Rightarrow> drive g evs' r')"
  by (induction evs arbitrary: r) (auto split: option.splits)

lemma start_invariant: "run_invariant env repo pr (start repo pr)"
  by (simp add: run_invariant_def start_def initial_state_def)

lemma tick_invariant:
  assumes inv: "run_invariant env repo pr r" and t: "tick (graph env) r = Some r'"
  shows "run_invariant env repo pr r'"
proof (cases "pos r")
  case (At n)
  with inv consider
      (s) "n = START" "history r = [At START]" "executed r = []" "pr_diff (state_values r) = None"
    | (v) "n = ''reviewer''" "history r = [At START, At ''reviewer'']" "executed r = []"
          "pr_diff (state_values r) = None"
    | (p) "n = ''poster''"
          "history r = [At START, At ''reviewer'', Interrupted ''poster'', At ''poster'']"
          "executed r = [''reviewer'']" "holds_fetched_diff env repo pr (state_values r)"
    by (auto simp add: run_invariant_def)
  then show ?thesis
  proof cases
    case s
    with At t inv show ?thesis
      by (auto simp add: tick_start run_invariant_def move_def)
  next
    case v
    obtain cs res where node: "reviewer_node env (state_values r) = (cs, res)"
      by (cases "reviewer_node env (state_values r)")
    show ?thesis
    proof (cases res)
      case (Inl e)
      with v At t inv node show ?thesis
        by (auto simp add: tick_reviewer run_invariant_def move_def)
    next
      case (Inr u)
      with node obtain d found where
        u: "u = [(''pr_diff'', VStr d), (''proposed_comments'', VComments found)]" and
        d: "fetch_pr_diff env (repo_name (state_values r)) (pr_number (state_values r)) = Inr d"
        using reviewer_node_update [of env "state_values r" cs u] v(4) by auto
      with Inr v At t inv node show ?thesis
        by (auto simp add: tick_reviewer run_invariant_def move_def holds_fetched_diff_def)
    qed
  next
    case p
    obtain cs res where node: "poster_node env (state_values r) = (cs, res)"
      by (cases "poster_node env (state_values r)")
    show ?thesis
    proof (cases res)
      case (Inl e)
      with p At t inv node show ?thesis
        by (auto simp add: tick_poster run_invariant_def move_def)
    next
      case (Inr u)
      with node obtain ms where u: "u = [(''messages'', VMessages ms)]"
        using poster_node_update [of env "state_values r" cs u] by auto
      with Inr p At t inv node show ?thesis
        by (auto simp add: tick_poster run_invariant_def move_def holds_fetched_diff_def)
    qed
  qed
next
  case (Interrupted n)
  with t show ?thesis by (simp add: tick_def)
next
  case Finished
  with t show ?thesis by (simp add: tick_def)
next
  case (Crashed e)
  with t show ?thesis by (simp add: tick_def)
qed

lemma resume_invariant:
  assumes inv: "run_invariant env repo pr r" and t: "resume approval r = Some r'"
  shows "run_invariant env repo pr r'"
  using assms
  by (cases "pos r"; cases approval)
     (auto simp add: resume_def run_invariant_def move_def holds_fetched_diff_def)

lemma fire_invariant:
  "run_invariant env repo pr r \<Longrightarrow> fire (graph env) ev r = Some r' \<Longrightarrow>
   run_invariant env repo pr r'"
  by (cases ev) (auto simp add: fire_def intro: tick_invariant resume_invariant)

lemma drive_invariant:
  "run_invariant env repo pr r \<Longrightarrow> drive (graph env) evs r = Some r' \<Longrightarrow>
   run_invariant env repo pr r'"
  by (induction evs arbitrary: r) (auto split: option.splits intro: fire_invariant)

lemma reachable_invariant:
  "drive (graph env) evs (start repo pr) = Some r \<Longrightarrow> run_invariant env repo pr r"
  using drive_invariant [OF start_invariant] .

lemma invariant_on_linear_path:
  "run_invariant env repo pr r \<Longrightarrow> on_linear_path (phases r)"
  by (cases "pos r")
     (auto simp add: run_invariant_def on_linear_path_def phases_def phase_of_def linear_path_def
        START_def)

text \<open>Without a resume, a run never gets past the suspension before the poster.\<close>

lemma tick_before_resume:
  assumes "run_invariant env repo pr r" and "At ''poster'' \<notin> set (history r)"
    and "tick (graph env) r = Some r'"
  shows "At ''poster'' \<notin> set (history r')"
proof (cases "pos r")
  case (At n)
  with assms(1,2) consider "n = START" | "n = ''reviewer''"
    by (auto simp add: run_invariant_def)
  then show ?thesis
  proof cases
    case 1
    with At assms show ?thesis by (auto simp add: tick_start move_def)
  next
    case 2
    with At assms show ?thesis
      by (auto simp add: tick_reviewer move_def split: prod.splits sum.splits)
  qed
next
  case (Interrupted n)
  with assms show ?thesis by (simp add: tick_def)
next
  case Finished
  with assms show ?thesis by (simp add: tick_def)
next
  case (Crashed e)
  with assms show ?thesis by (simp add: tick_def)
qed

lemma drive_before_resume:
  assumes "run_invariant env repo pr r" and "At ''poster'' \<notin> set (history r)"
    and "drive (graph env) evs r = Some r'" and "\<forall>approval. Resume approval \<notin> set evs"
  shows "At ''poster'' \<notin> set (history r')"
  using assms
proof (induction evs arbitrary: r)
  case Nil
  then show ?case by simp
next
  case (Cons ev evs)
  from Cons.prems(4) have ev: "ev = Tick" by (cases ev) auto
  from Cons.prems(3) ev obtain r1 where
    r1: "tick (graph env) r = Some r1" "drive (graph env) evs r1 = Some r'"
    by (auto simp add: fire_def split: option.splits)
  have "run_invariant env repo pr r1"
    using tick_invariant [OF Cons.prems(1) r1(1)] .
  moreover have "At ''poster'' \<notin> set (history r1)"
    using tick_before_resume [OF Cons.prems(1,2) r1(1)] .
  ultimately show ?case
    using Cons.IH [of r1] r1(2) Cons.prems(4) by simp
qed

lemma poster_executed_in_history:
  "run_invariant env repo pr r \<Longrightarrow> ''poster'' \<in> set (executed r) \<Longrightarrow>
   At ''poster'' \<in> set (history r)"
  by (cases "pos r") (auto simp add: run_invariant_def)

lemma example_reviewing:
  "drive (graph example_env) [Tick] (start ''acme/widgets'' 42) =
     Some (move (At ''reviewer'') (start ''acme/widgets'' 42))"
  by (simp add: fire_def tick_start start_def)

lemma example_review_step:
  "tick (graph example_env) (move (At ''reviewer'') (start ''acme/widgets'' 42)) =
     Some suspended_example"
  by (simp add: start_def tick_reviewer move_def reviewer_node_falsy
        initial_state_def example_env_def suspended_example_def reviewed_state_def)

lemma example_suspends:
  "drive (graph example_env) [Tick, Tick] (start ''acme/widgets'' 42) = Some suspended_example"
  by (simp add: fire_def start_def tick_start tick_reviewer move_def reviewer_node_falsy
        initial_state_def example_env_def suspended_example_def reviewed_state_def)

lemma example_finishes:
  "drive (graph example_env) [Resume (Some True), Tick] suspended_example = Some finished_example"
  by (simp add: fire_def resume_def tick_poster move_def poster_node_def Let_def
        initial_state_def example_env_def suspended_example_def finished_example_def
        reviewed_state_def)

text \<open>
  C5. Every run of the compiled graph, whatever events drive it, has gone through a
  prefix of start, reviewing, awaiting-approval, posting, done (or that path up to a
  step that raised). When the review generator completes, the run is suspended before
  the poster, always. A suspended run has no step of its own and accepts every resume.
  The poster has run only if a resume is among the events. Outside the suspension, a run
  that is not over can always take its next step.
\<close>

theorem workflow_single_linear_path:
  assumes "drive (graph env) evs (start repo pr) = Some r"
  shows "on_linear_path (phases r) \<and>
         (\<forall>r'. phase_of (pos r) = Reviewing \<and> tick (graph env) r = Some r' \<and>
               phase_of (pos r') \<noteq> Failed \<longrightarrow> pos r' = Interrupted ''poster'') \<and>
         (phase_of (pos r) = AwaitingApproval \<longrightarrow>
            tick (graph env) r = None \<and> (\<forall>approval. resume approval r \<noteq> None)) \<and>
         (''poster'' \<in> set (executed r) \<longrightarrow> (\<exists>approval. Resume approval \<in> set evs)) \<and>
         (phase_of (pos r) = Start \<or> phase_of (pos r) = Reviewing \<or> phase_of (pos r) = Posting \<longrightarrow>
            tick (graph env) r \<noteq> None)"
proof -
  have inv: "run_invariant env repo pr r"
    using reachable_invariant [OF assms] .
  have path: "on_linear_path (phases r)"
    using invariant_on_linear_path [OF inv] .
  have suspends: "\<forall>r'. phase_of (pos r) = Reviewing \<and> tick (graph env) r = Some r' \<and>
      phase_of (pos r') \<noteq> Failed \<longrightarrow> pos r' = Interrupted ''poster''"
  proof (intro allI impI, elim conjE)
    fix r'
    assume a: "phase_of (pos r) = Reviewing" "tick (graph env) r = Some r'"
      "phase_of (pos r') \<noteq> Failed"
    from a(1) have "pos r = At ''reviewer''"
      by (cases "pos r") (auto simp add: phase_of_def split: if_splits)
    with a(2,3) show "pos r' = Interrupted ''poster''"
      by (auto simp add: tick_reviewer move_def phase_of_def split: prod.splits sum.splits)
  qed
  have waits: "phase_of (pos r) = AwaitingApproval \<longrightarrow>
      tick (graph env) r = None \<and> (\<forall>approval. resume approval r \<noteq> None)"
    by (cases "pos r") (auto simp add: phase_of_def tick_def resume_def split: if_splits)
  have resumed: "''poster'' \<in> set (executed r) \<longrightarrow> (\<exists>approval. Resume approval \<in> set evs)"
  proof (intro impI, rule ccontr)
    assume ex: "''poster'' \<in> set (executed r)" and none: "\<nexists>approval. Resume approval \<in> set evs"
    have "At ''poster'' \<notin> set (history r)"
      using drive_before_resume [OF start_invariant _ assms] none
      by (simp add: start_def START_def)
    with poster_executed_in_history [OF inv ex] show False by simp
  qed
  have progress: "phase_of (pos r) = Start \<or> phase_of (pos r) = Reviewing \<or>
      phase_of (pos r) = Posting \<longrightarrow> tick (graph env) r \<noteq> None"
    by (cases "pos r") (auto simp add: phase_of_def tick_def split: option.splits prod.splits sum.splits)
  from path suspends waits resumed progress show ?thesis by blast
qed

theorem workflow_single_linear_path_witness:
  "drive (graph example_env) [Tick] (start ''acme/widgets'' 42) =
     Some (move (At ''reviewer'') (start ''acme/widgets'' 42)) \<and>
   phase_of (pos (move (At ''reviewer'') (start ''acme/widgets'' 42))) = Reviewing \<and>
   tick (graph example_env) (move (At ''reviewer'') (start ''acme/widgets'' 42)) =
     Some suspended_example \<and>
   phase_of (pos suspended_example) \<noteq> Failed \<and>
   pos suspended_example = Interrupted ''poster'' \<and>
   drive (graph example_env) [Tick, Tick] (start ''acme/widgets'' 42) = Some suspended_example \<and>
   phase_of (pos suspended_example) = AwaitingApproval \<and>
   tick (graph example_env) suspended_example = None \<and>
   resume (Some True) suspended_example \<noteq> None \<and>
   drive (graph example_env) ([Tick, Tick] @ [Resume (Some True), Tick]) (start ''acme/widgets'' 42) =
     Some finished_example \<and>
   phases finished_example = linear_path \<and>
   on_linear_path (phases finished_example) \<and>
   ''poster'' \<in> set (executed finished_example) \<and>
   (\<exists>approval. Resume approval \<in> set ([Tick, Tick] @ [Resume (Some True), Tick]))"
proof -
  have rv: "phase_of (pos (move (At ''reviewer'') (start ''acme/widgets'' 42))) = Reviewing"
    by (simp add: move_def phase_of_def START_def)
  have nf: "phase_of (pos suspended_example) \<noteq> Failed"
    and aw: "phase_of (pos suspended_example) = AwaitingApproval"
    by (simp_all add: suspended_example_def phase_of_def)
  from workflow_single_linear_path [OF example_reviewing] rv example_review_step nf
  have one: "pos suspended_example = Interrupted ''poster''"
    by blast
  from workflow_single_linear_path [OF example_suspends] aw
  have two: "tick (graph example_env) suspended_example = None"
    "resume (Some True) suspended_example \<noteq> None"
    by blast+
  have run: "drive (graph example_env) ([Tick, Tick] @ [Resume (Some True), Tick])
      (start ''acme/widgets'' 42) = Some finished_example"
    by (simp only: drive_append example_suspends example_finishes option.case)
  have ph: "phases finished_example = linear_path"
    by (simp add: phases_def finished_example_def phase_of_def linear_path_def START_def)
  have ex: "''poster'' \<in> set (executed finished_example)"
    by (simp add: finished_example_def)
  from workflow_single_linear_path [OF run] ex
  have three: "on_linear_path (phases finished_example)"
    "\<exists>approval. Resume approval \<in> set ([Tick, Tick] @ [Resume (Some True), Tick])"
    by blast+
  from example_reviewing rv example_review_step nf one example_suspends aw two run ph three ex
  show ?thesis by blast
qed

text \<open>
  C6. A run suspended before the poster that is resumed, with or without an approval
  decision, continues at the poster. The step that follows invokes the poster only:
  no fetch and no analysis is added to the calls, and \<open>pr_diff\<close> and
  \<open>proposed_comments\<close> are afterwards what they were at the suspension. The update
  the poster returns has the single key \<open>messages\<close>.
\<close>

theorem resume_runs_poster_only:
  assumes "pos r = Interrupted ''poster''"
  shows "(\<exists>r1 r2. resume approval r = Some r1 \<and> pos r1 = At ''poster'' \<and>
            tick (graph env) r1 = Some r2 \<and>
            executed r2 = executed r @ [''poster''] \<and>
            filter is_review_call (calls r2) = filter is_review_call (calls r) \<and>
            pr_diff (state_values r2) = pr_diff (state_values r) \<and>
            proposed_comments (state_values r2) = proposed_comments (state_values r)) \<and>
         (\<forall>cs u. poster_node env state = (cs, Inr u) \<longrightarrow> keys u = [''messages''])"
proof -
  define s1 where "s1 = (case approval of None \<Rightarrow> state_values r
                          | Some b \<Rightarrow> (state_values r)\<lparr>review_approved := b\<rparr>)"
  define r1 where "r1 = move (At ''poster'') (r\<lparr>state_values := s1\<rparr>)"
  have res: "resume approval r = Some r1"
    using assms by (simp add: resume_def r1_def s1_def)
  have p1: "pos r1 = At ''poster''"
    by (simp add: r1_def move_def)
  have s1_diff: "pr_diff s1 = pr_diff (state_values r)"
    and s1_comments: "proposed_comments s1 = proposed_comments (state_values r)"
    by (cases approval; simp add: s1_def)+
  have v1: "state_values r1 = s1" "executed r1 = executed r" "calls r1 = calls r"
    by (simp_all add: r1_def move_def)
  obtain cs res where node: "poster_node env s1 = (cs, res)"
    by (cases "poster_node env s1")
  have post_only: "filter is_review_call cs = []"
    using node
    by (auto simp add: poster_node_def Let_def is_review_call_def split: if_splits sum.splits)
  have "\<exists>r2. tick (graph env) r1 = Some r2 \<and> executed r2 = executed r @ [''poster''] \<and>
          filter is_review_call (calls r2) = filter is_review_call (calls r) \<and>
          pr_diff (state_values r2) = pr_diff (state_values r) \<and>
          proposed_comments (state_values r2) = proposed_comments (state_values r)"
  proof (cases res)
    case (Inl e)
    with node p1 v1 post_only s1_diff s1_comments show ?thesis
      by (simp add: tick_poster move_def)
  next
    case (Inr u)
    with node obtain ms where "u = [(''messages'', VMessages ms)]"
      using poster_node_update [of env s1 cs u] by auto
    with Inr node p1 v1 post_only s1_diff s1_comments show ?thesis
      by (simp add: tick_poster move_def)
  qed
  with res p1 show ?thesis
    using poster_node_keys [of env state] by blast
qed

theorem resume_runs_poster_only_witness:
  "pos suspended_example = Interrupted ''poster'' \<and>
   resume (Some True) suspended_example \<noteq> None \<and>
   (\<exists>r2. tick (graph example_env) (the (resume (Some True) suspended_example)) = Some r2 \<and>
      executed r2 = [''reviewer'', ''poster''] \<and>
      pr_diff (state_values r2) = Some ''+ query = prefix + name'' \<and>
      proposed_comments (state_values r2) = [example_comment]) \<and>
   poster_node example_env (reviewed_state\<lparr>review_approved := True\<rparr>) =
     ([PostCall ''acme/widgets'' 42 [model_dump example_comment]],
      Inr [(''messages'', VMessages [(''ai'', rocket @ '' Review posted'')])]) \<and>
   keys [(''messages'', VMessages [(''ai'', rocket @ '' Review posted'')])] = [''messages'']"
proof -
  have p: "pos suspended_example = Interrupted ''poster''"
    by (simp add: suspended_example_def)
  have n: "poster_node example_env (reviewed_state\<lparr>review_approved := True\<rparr>) =
     ([PostCall ''acme/widgets'' 42 [model_dump example_comment]],
      Inr [(''messages'', VMessages [(''ai'', rocket @ '' Review posted'')])])"
    by (simp add: poster_node_def Let_def reviewed_state_def initial_state_def example_env_def)
  from resume_runs_poster_only
         [OF p, of "Some True" example_env "reviewed_state\<lparr>review_approved := True\<rparr>"] p n
  show ?thesis
    by (auto simp add: suspended_example_def reviewed_state_def initial_state_def)
qed

lemma tick_keeps_approval:
  assumes "tick (graph env) r = Some r'"
  shows "review_approved (state_values r') = review_approved (state_values r)"
proof (cases "pos r")
  case (At n)
  consider (v) "n = ''reviewer''" | (p) "n = ''poster''" | (o) "n \<noteq> ''reviewer''" "n \<noteq> ''poster''"
    by blast
  then show ?thesis
  proof cases
    case v
    obtain cs res where node: "reviewer_node env (state_values r) = (cs, res)"
      by (cases "reviewer_node env (state_values r)")
    show ?thesis
    proof (cases res)
      case (Inl e)
      with v At assms node show ?thesis by (auto simp add: tick_reviewer move_def)
    next
      case (Inr u)
      with node obtain d found where
        "u = [(''pr_diff'', VStr d), (''proposed_comments'', VComments found)]"
        using reviewer_node_update [of env "state_values r" cs u] by auto
      with Inr v At assms node show ?thesis by (auto simp add: tick_reviewer move_def)
    qed
  next
    case p
    obtain cs res where node: "poster_node env (state_values r) = (cs, res)"
      by (cases "poster_node env (state_values r)")
    show ?thesis
    proof (cases res)
      case (Inl e)
      with p At assms node show ?thesis by (auto simp add: tick_poster move_def)
    next
      case (Inr u)
      with node obtain ms where "u = [(''messages'', VMessages ms)]"
        using poster_node_update [of env "state_values r" cs u] by auto
      with Inr p At assms node show ?thesis by (auto simp add: tick_poster move_def)
    qed
  next
    case o
    with At assms show ?thesis
      by (auto simp add: tick_def graph_nodes move_def)
  qed
next
  case (Interrupted n)
  with assms show ?thesis by (simp add: tick_def)
next
  case Finished
  with assms show ?thesis by (simp add: tick_def)
next
  case (Crashed e)
  with assms show ?thesis by (simp add: tick_def)
qed

text \<open>
  C7. \<open>review_approved\<close> is false in a new state record; no update returned by the
  review generator or by the poster has the key \<open>review_approved\<close>; and no step of the
  engine on the compiled graph changes the flag. Only a resume can.
\<close>

theorem review_approved_not_written:
  "review_approved (initial_state repo pr) = False \<and>
   (\<forall>cs u. reviewer_node env state = (cs, Inr u) \<longrightarrow> ''review_approved'' \<notin> set (keys u)) \<and>
   (\<forall>cs u. poster_node env state = (cs, Inr u) \<longrightarrow> ''review_approved'' \<notin> set (keys u)) \<and>
   (\<forall>r'. tick (graph env) r = Some r' \<longrightarrow>
      review_approved (state_values r') = review_approved (state_values r))"
proof -
  have "\<forall>cs u. reviewer_node env state = (cs, Inr u) \<longrightarrow> ''review_approved'' \<notin> set (keys u)"
    using reviewer_node_update [of env state] by (fastforce simp add: keys_def)
  moreover
  have "\<forall>cs u. poster_node env state = (cs, Inr u) \<longrightarrow> ''review_approved'' \<notin> set (keys u)"
    using poster_node_keys [of env state] by fastforce
  ultimately show ?thesis
    using tick_keeps_approval [of env r] by (simp add: initial_state_def)
qed

theorem review_approved_not_written_witness:
  "review_approved (initial_state ''acme/widgets'' 42) = False \<and>
   reviewer_node example_env (initial_state ''acme/widgets'' 42) =
     ([FetchCall ''acme/widgets'' 42,
       AnalyzeCall (prompt ''acme/widgets'' ''+ query = prefix + name'')],
      Inr [(''pr_diff'', VStr ''+ query = prefix + name''),
           (''proposed_comments'', VComments [example_comment])]) \<and>
   ''review_approved'' \<notin> set (keys [(''pr_diff'', VStr ''+ query = prefix + name''),
                                      (''proposed_comments'', VComments [example_comment])]) \<and>
   poster_node example_env (initial_state ''acme/widgets'' 42) =
     ([], Inr [(''messages'',
                VMessages [(''ai'', cross_mark @ '' Review NOT approved by human. No comments posted.'')])]) \<and>
   ''review_approved'' \<notin> set (keys [(''messages'',
       VMessages [(''ai'', cross_mark @ '' Review NOT approved by human. No comments posted.'')])]) \<and>
   tick (graph example_env) (start ''acme/widgets'' 42) =
     Some (move (At ''reviewer'') (start ''acme/widgets'' 42)) \<and>
   review_approved (state_values (move (At ''reviewer'') (start ''acme/widgets'' 42))) = False"
proof -
  have n: "reviewer_node example_env (initial_state ''acme/widgets'' 42) =
     ([FetchCall ''acme/widgets'' 42,
       AnalyzeCall (prompt ''acme/widgets'' ''+ query = prefix + name'')],
      Inr [(''pr_diff'', VStr ''+ query = prefix + name''),
           (''proposed_comments'', VComments [example_comment])])"
    by (simp add: reviewer_node_falsy initial_state_def example_env_def)
  have p: "poster_node example_env (initial_state ''acme/widgets'' 42) =
     ([], Inr [(''messages'',
                VMessages [(''ai'', cross_mark @ '' Review NOT approved by human. No comments posted.'')])])"
    by (simp add: poster_node_def initial_state_def)
  have t: "tick (graph example_env) (start ''acme/widgets'' 42) =
     Some (move (At ''reviewer'') (start ''acme/widgets'' 42))"
    by (simp add: tick_start start_def)
  from review_approved_not_written
         [of "''acme/widgets''" 42 example_env "initial_state ''acme/widgets'' 42"
             "start ''acme/widgets'' 42"] n p t
  show ?thesis
    by (simp add: start_def)
qed

lemma fire_keeps_diff:
  assumes inv: "run_invariant env repo pr r" and d: "pr_diff (state_values r) \<noteq> None"
    and f: "fire (graph env) ev r = Some r'"
  shows "pr_diff (state_values r') = pr_diff (state_values r)"
proof (cases ev)
  case Tick
  with f have t: "tick (graph env) r = Some r'" by (simp add: fire_def)
  from t obtain n where n: "pos r = At n"
    by (cases "pos r") (auto simp add: tick_def)
  with inv d have p: "pos r = At ''poster''"
    by (auto simp add: run_invariant_def)
  obtain cs res where node: "poster_node env (state_values r) = (cs, res)"
    by (cases "poster_node env (state_values r)")
  show ?thesis
  proof (cases res)
    case (Inl e)
    with p t node show ?thesis by (auto simp add: tick_poster move_def)
  next
    case (Inr u)
    with node obtain ms where "u = [(''messages'', VMessages ms)]"
      using poster_node_update [of env "state_values r" cs u] by auto
    with Inr p t node show ?thesis by (auto simp add: tick_poster move_def)
  qed
next
  case (Resume approval)
  with f show ?thesis
    by (cases "pos r"; cases approval) (auto simp add: fire_def resume_def move_def)
qed

lemma drive_keeps_diff:
  "run_invariant env repo pr r \<Longrightarrow> pr_diff (state_values r) \<noteq> None \<Longrightarrow>
   drive (graph env) evs r = Some r' \<Longrightarrow> pr_diff (state_values r') = pr_diff (state_values r)"
proof (induction evs arbitrary: r)
  case Nil
  then show ?case by simp
next
  case (Cons ev evs)
  from Cons.prems(3) obtain r1 where
    r1: "fire (graph env) ev r = Some r1" "drive (graph env) evs r1 = Some r'"
    by (auto split: option.splits)
  have same: "pr_diff (state_values r1) = pr_diff (state_values r)"
    using fire_keeps_diff [OF Cons.prems(1,2) r1(1)] .
  have "run_invariant env repo pr r1"
    using fire_invariant [OF Cons.prems(1) r1(1)] .
  with Cons.IH [of r1] same Cons.prems(2) r1(2) show ?case by simp
qed

text \<open>
  C8. In every run, \<open>pr_diff\<close> is absent as long as the review generator has not run;
  at the suspension it is the diff the fetch tool returned; and once it is set, nothing
  that happens later in the run changes it.
\<close>

theorem pr_diff_empty_then_immutable:
  assumes "drive (graph env) evs (start repo pr) = Some r"
  shows "(''reviewer'' \<notin> set (executed r) \<longrightarrow> pr_diff (state_values r) = None) \<and>
         (phase_of (pos r) = AwaitingApproval \<longrightarrow>
            (\<exists>d. fetch_pr_diff env repo pr = Inr d \<and> pr_diff (state_values r) = Some d)) \<and>
         (\<forall>evs' r'. pr_diff (state_values r) \<noteq> None \<and> drive (graph env) evs' r = Some r' \<longrightarrow>
            pr_diff (state_values r') = pr_diff (state_values r))"
proof -
  have inv: "run_invariant env repo pr r"
    using reachable_invariant [OF assms] .
  have "''reviewer'' \<notin> set (executed r) \<longrightarrow> pr_diff (state_values r) = None"
    using inv by (cases "pos r") (auto simp add: run_invariant_def)
  moreover
  have "phase_of (pos r) = AwaitingApproval \<longrightarrow>
          (\<exists>d. fetch_pr_diff env repo pr = Inr d \<and> pr_diff (state_values r) = Some d)"
    using inv
    by (cases "pos r")
       (auto simp add: run_invariant_def phase_of_def holds_fetched_diff_def
          split: if_splits option.splits)
  moreover
  have "\<forall>evs' r'. pr_diff (state_values r) \<noteq> None \<and> drive (graph env) evs' r = Some r' \<longrightarrow>
          pr_diff (state_values r') = pr_diff (state_values r)"
    using drive_keeps_diff [OF inv] by blast
  ultimately show ?thesis by blast
qed

theorem pr_diff_empty_then_immutable_witness:
  "drive (graph example_env) [] (start ''acme/widgets'' 42) = Some (start ''acme/widgets'' 42) \<and>
   ''reviewer'' \<notin> set (executed (start ''acme/widgets'' 42)) \<and>
   pr_diff (state_values (start ''acme/widgets'' 42)) = None \<and>
   drive (graph example_env) [Tick, Tick] (start ''acme/widgets'' 42) = Some suspended_example \<and>
   phase_of (pos suspended_example) = AwaitingApproval \<and>
   fetch_pr_diff example_env ''acme/widgets'' 42 = Inr ''+ query = prefix + name'' \<and>
   pr_diff (state_values suspended_example) = Some ''+ query = prefix + name'' \<and>
   drive (graph example_env) [Resume (Some True), Tick] suspended_example = Some finished_example \<and>
   pr_diff (state_values finished_example) = pr_diff (state_values suspended_example)"
proof -
  have a: "drive (graph example_env) [] (start ''acme/widgets'' 42) = Some (start ''acme/widgets'' 42)"
    by simp
  have b: "pr_diff (state_values suspended_example) \<noteq> None"
    by (simp add: suspended_example_def reviewed_state_def)
  have c: "phase_of (pos suspended_example) = AwaitingApproval"
    by (simp add: suspended_example_def phase_of_def)
  have d: "fetch_pr_diff example_env ''acme/widgets'' 42 = Inr ''+ query = prefix + name''"
    by (simp add: example_env_def)
  have e: "''reviewer'' \<notin> set (executed (start ''acme/widgets'' 42))"
    by (simp add: start_def)
  from pr_diff_empty_then_immutable [OF a] e
  have first: "pr_diff (state_values (start ''acme/widgets'' 42)) = None"
    by blast
  from pr_diff_empty_then_immutable [OF example_suspends] c d
  have second: "pr_diff (state_values suspended_example) = Some ''+ query = prefix + name''"
    by auto
  from pr_diff_empty_then_immutable [OF example_suspends] b example_finishes
  have third: "pr_diff (state_values finished_example) = pr_diff (state_values suspended_example)"
    by blast
  from a e first example_suspends c d second example_finishes third
  show ?thesis by blast
qed

end
